theory Spec2Isabelle
  imports Main "HOL-Library.Word"
begin

unbundle bit_operations_syntax

section \<open>Data model of net/netfilter/xt\_FLOWOFFLOAD.c\<close>

text \<open>
  The kernel objects the file works on are records; pointers that may be NULL are
  options; the two-element arrays indexed by a direction or by a table number
  (\<open>flowtable[2]\<close>, \<open>route.tuple[2]\<close>, \<open>devs[2]\<close>) are functions from \<open>bool\<close>, with
  \<open>False\<close> for index 0 and \<open>True\<close> for index 1, so that the source's \<open>!dir\<close> is
  \<open>\<not> dir\<close>. Every call into another kernel subsystem that has an effect is appended
  to a trace of events; what such a call returns is taken from an explicit
  environment.
\<close>

type_synonym mac = "8 word list"

record net_device =
  ifindex :: int
  dev_flags :: "32 word"
  dev_type :: "16 word"
  addr_len :: nat
  dev_addr :: mac
  nd_net :: nat

definition IFF_LOOPBACK :: "32 word" where "IFF_LOOPBACK = 0x8"
definition ARPHRD_ETHER :: "16 word" where "ARPHRD_ETHER = 1"
definition ETH_ALEN :: nat where "ETH_ALEN = 6"
definition ETH_P_IP :: "16 word" where "ETH_P_IP = 0x0800"
definition ETH_P_IPV6 :: "16 word" where "ETH_P_IPV6 = 0x86DD"
definition NF_ACCEPT :: nat where "NF_ACCEPT = 1"
definition XT_CONTINUE :: nat where "XT_CONTINUE = 0xFFFFFFFF"
definition NFPROTO_IPV4 :: nat where "NFPROTO_IPV4 = 2"
definition NFPROTO_NETDEV :: nat where "NFPROTO_NETDEV = 5"
definition NFPROTO_IPV6 :: nat where "NFPROTO_IPV6 = 10"
definition NF_NETDEV_INGRESS :: nat where "NF_NETDEV_INGRESS = 0"
definition XT_FLOWOFFLOAD_HW :: "32 word" where "XT_FLOWOFFLOAD_HW = 0x1"
definition ENOMEM :: int where "ENOMEM = 12"
definition ENOENT :: int where "ENOENT = 2"
definition NETDEV_UNREGISTER :: nat where "NETDEV_UNREGISTER = 6"
definition NOTIFY_DONE :: int where "NOTIFY_DONE = 0"
definition IPPROTO_TCP :: "8 word" where "IPPROTO_TCP = 6"
definition IPPROTO_UDP :: "8 word" where "IPPROTO_UDP = 17"
definition TCP_CONNTRACK_ESTABLISHED :: nat where "TCP_CONNTRACK_ESTABLISHED = 3"
definition IPS_CONFIRMED_BIT :: nat where "IPS_CONFIRMED_BIT = 3"
definition IPS_SEQ_ADJUST :: "64 word" where "IPS_SEQ_ADJUST = 0x40"
definition IPS_OFFLOAD_BIT :: nat where "IPS_OFFLOAD_BIT = 14"
definition IP_CT_TCP_FLAG_BE_LIBERAL :: "8 word" where "IP_CT_TCP_FLAG_BE_LIBERAL = 0x08"
definition IP_CT_IS_REPLY :: nat where "IP_CT_IS_REPLY = 3"
definition NUD_VALID :: "8 word" where "NUD_VALID = 0xDE"

text \<open>\<open>htons\<close> on a little-endian host: the two bytes of a 16-bit value swapped.\<close>

definition htons :: "16 word \<Rightarrow> 16 word" where
  "htons x = (push_bit 8 x) OR (drop_bit 8 x)"

subsection \<open>Hooks and offload tables\<close>

record xt_flowoffload_hook =
  ops_pf :: nat
  ops_hooknum :: nat
  ops_priority :: int
  ops_priv :: bool
  ops_dev :: net_device
  net :: "nat option"
  registered :: bool
  used :: bool

text \<open>
  A flow entry of the store, as far as this file reads it: the ingress device index
  of each of its two tuples (\<open>flow->tuplehash[i].tuple.iifidx\<close>).
\<close>

record flow_offload =
  iifidx0 :: int
  iifidx1 :: int

text \<open>
  \<open>struct xt_flowoffload_table\<close>: the flow table \<open>ft\<close> (its flags, its namespace
  and the flows it stores) and the hook list, whose head is the head of the
  \<open>hlist\<close>. The delayed work is represented by the scheduling events of the trace.
\<close>

record xt_flowoffload_table =
  ft_flags :: "32 word"
  ft_net :: "nat option"
  ft_flows :: "flow_offload list"
  hooks :: "xt_flowoffload_hook list"

datatype flow_block_command = FLOW_BLOCK_BIND | FLOW_BLOCK_UNBIND

datatype delay = Delay_0 | Delay_HZ

datatype event =
    SpinLock
  | SpinUnlock
  | NfRegisterNetHook nat net_device
  | NfUnregisterNetHook "nat option" net_device
  | FtSetup bool net_device flow_block_command
  | HlistDel bool net_device
  | KfreeHook bool net_device
  | ModDelayedWork bool delay
  | QueueDelayedWork bool delay
  | NfFlowTableCleanup net_device
  | DstAcquire nat
  | DstRelease nat
  | FlowOffloadAlloc
  | FlowOffloadFree
  | FlowOffloadAdd bool

subsection \<open>Packets and connections\<close>

record tcphdr =
  fin :: bool
  rst :: bool

text \<open>
  The packet: whether it has a security path, the option length of its IPv4 control
  block, its link-layer protocol (big-endian, as stored), the conntrack info stored
  with its conntrack pointer, and what \<open>skb_header_pointer\<close> yields for the TCP
  header at the transport offset (\<open>None\<close> for NULL).
\<close>

record sk_buff =
  sec_path :: bool
  opt_optlen :: nat
  protocol :: "16 word"
  ctinfo :: nat
  tcp_header :: "tcphdr option"

text \<open>\<open>union nf_inet_addr\<close> through its member \<open>all[4]\<close>; \<open>ip\<close> is its first word.\<close>

type_synonym nf_inet_addr = "32 word list"

definition u3_ip :: "nf_inet_addr \<Rightarrow> 32 word" where
  "u3_ip a = (case a of [] \<Rightarrow> 0 | x # _ \<Rightarrow> x)"

record nf_conn =
  orig_protonum :: "8 word"
  tuple_src_u3 :: "bool \<Rightarrow> nf_inet_addr"
  tuple_dst_u3 :: "bool \<Rightarrow> nf_inet_addr"
  tcp_state :: nat
  tcp_seen_flags :: "bool \<Rightarrow> 8 word"
  status :: "64 word"
  ext_helper :: bool

record xt_action_param =
  family :: nat
  par_in :: "net_device option"
  par_out :: "net_device option"
  par_net :: nat
  targinfo_flags :: "32 word"

subsection \<open>Routes and forwarding paths\<close>

record dst_entry =
  dst_id :: nat
  dst_dev :: net_device
  dst_xfrm :: bool

record neighbour =
  nud_state :: "8 word"
  ha :: mac

datatype flow_offload_xmit_type =
    FLOW_OFFLOAD_XMIT_UNSPEC
  | FLOW_OFFLOAD_XMIT_NEIGH
  | FLOW_OFFLOAD_XMIT_XFRM
  | FLOW_OFFLOAD_XMIT_DIRECT

text \<open>
  The constant and the field types below are declared in
  \<open>include/net/netfilter/nf_flow_table.h\<close> of the same tree:
  \<open>NF_FLOW_TABLE_ENCAP_MAX\<close> is 2, and \<open>num_encaps\<close> and \<open>ingress_vlans\<close> are
  two-bit unsigned bit-fields (\<open>u8 num_encaps:2, ingress_vlans:2\<close>), so both are
  words of length 2 here.
\<close>

definition NF_FLOW_TABLE_ENCAP_MAX :: nat where "NF_FLOW_TABLE_ENCAP_MAX = 2"

record route_tuple =
  dst :: "dst_entry option"
  in_ifindex :: int
  in_encap :: "(16 word \<times> 16 word) list"
  in_num_encaps :: "2 word"
  in_ingress_vlans :: "2 word"
  out_ifindex :: int
  out_hw_ifindex :: int
  out_h_source :: mac
  out_h_dest :: mac
  xmit_type :: flow_offload_xmit_type

type_synonym nf_flow_route = "bool \<Rightarrow> route_tuple"

datatype net_device_path_type =
    DEV_PATH_ETHERNET
  | DEV_PATH_VLAN
  | DEV_PATH_BRIDGE
  | DEV_PATH_PPPOE
  | DEV_PATH_DSA

datatype bridge_vlan_mode =
    DEV_PATH_BR_VLAN_KEEP
  | DEV_PATH_BR_VLAN_TAG
  | DEV_PATH_BR_VLAN_UNTAG
  | DEV_PATH_BR_VLAN_UNTAG_HW

text \<open>
  One segment of a forwarding path. The members of the C union (\<open>encap\<close>,
  \<open>bridge\<close>) are separate fields; the walk reads \<open>encap\<close> only for VLAN and PPPoE
  segments and \<open>bridge\<close> only for bridge segments. The device pointer of a
  segment is taken to point to a device.
\<close>

record net_device_path =
  path_type :: net_device_path_type
  path_dev :: net_device
  encap_id :: "16 word"
  encap_proto :: "16 word"
  encap_h_dest :: mac
  bridge_vlan_mode :: bridge_vlan_mode
  bridge_vlan_id :: "16 word"
  bridge_vlan_proto :: "16 word"

text \<open>
  \<open>struct net_device_path_stack\<close>: the list \<open>path\<close> is the whole fixed-size array
  (its length is the array's capacity), of which the first \<open>num_paths\<close> entries
  are filled in.
\<close>

record net_device_path_stack =
  num_paths :: int
  path :: "net_device_path list"

datatype flowi =
    Flowi_zero
  | Flowi4 "32 word" int
  | Flowi6 nf_inet_addr nf_inet_addr int

subsection \<open>The environment and the state\<close>

text \<open>
  What the other subsystems answer: the routing lookup, the neighbour lookup, the
  forwarding path of a device, the memory that follows the path array on the stack,
  whether the flow allocation succeeds, the return values of
  \<open>flow_offload_route_init\<close> and \<open>flow_offload_add\<close>, and whether the hook
  allocation of the first and of the second \<open>xt_flowoffload_check_device\<close> call
  succeeds.
\<close>

record env =
  nf_route :: "nat \<Rightarrow> flowi \<Rightarrow> nat \<Rightarrow> dst_entry option"
  dst_neigh_lookup :: "dst_entry \<Rightarrow> nf_inet_addr \<Rightarrow> neighbour option"
  dev_fill_forward_path :: "net_device \<Rightarrow> mac \<Rightarrow> int \<times> net_device_path_stack"
  beyond_path :: net_device_path
  flow_offload_alloc_ok :: bool
  flow_offload_route_init_ret :: int
  flow_offload_add_ret :: int
  kzalloc_hook0_ok :: bool
  kzalloc_hook1_ok :: bool

text \<open>
  The state the file works on: the two tables, the packet under processing, the
  connection the packet points to (\<open>None\<close> when \<open>nf_ct_get\<close> returns NULL), and the
  trace of effects so far.
\<close>

record world =
  flowtable :: "bool \<Rightarrow> xt_flowoffload_table"
  skb :: sk_buff
  conn :: "nf_conn option"
  trace :: "event list"

definition emit :: "event list \<Rightarrow> world \<Rightarrow> world" where
  "emit es w = w\<lparr>trace := trace w @ es\<rparr>"

definition set_hooks :: "bool \<Rightarrow> xt_flowoffload_hook list \<Rightarrow> world \<Rightarrow> world" where
  "set_hooks tbl hs w =
     w\<lparr>flowtable := (flowtable w)(tbl := (flowtable w tbl)\<lparr>hooks := hs\<rparr>)\<rparr>"

section \<open>The ingress hook\<close>

definition ft_nelems :: "xt_flowoffload_table \<Rightarrow> nat" where
  "ft_nelems ft = length (ft_flows ft)"

text \<open>
  \<open>xt_flowoffload_net_hook\<close>; the two fast-path functions of the flow table are
  parameters.
\<close>

definition xt_flowoffload_net_hook ::
  "(xt_flowoffload_table \<Rightarrow> sk_buff \<Rightarrow> nat) \<Rightarrow> (xt_flowoffload_table \<Rightarrow> sk_buff \<Rightarrow> nat) \<Rightarrow>
   xt_flowoffload_table \<Rightarrow> sk_buff \<Rightarrow> nat" where
  "xt_flowoffload_net_hook nf_flow_offload_ip_hook nf_flow_offload_ipv6_hook ft pkt =
     (if ft_nelems ft = 0 then NF_ACCEPT
      else if protocol pkt = htons ETH_P_IP then nf_flow_offload_ip_hook ft pkt
      else if protocol pkt = htons ETH_P_IPV6 then nf_flow_offload_ipv6_hook ft pkt
      else NF_ACCEPT)"

section \<open>The hook registry\<close>

text \<open>
  \<open>xt_flowoffload_create_hook\<close>: \<open>kzalloc\<close> may fail, then nothing changes and
  \<open>-ENOMEM\<close> is returned; otherwise the zeroed hook gets its \<open>ops\<close>, is put at the
  head of the list, and the work is scheduled with delay 0.
\<close>

definition new_hook :: "bool \<Rightarrow> net_device \<Rightarrow> xt_flowoffload_hook" where
  "new_hook tbl dev =
     \<lparr>ops_pf = NFPROTO_NETDEV, ops_hooknum = NF_NETDEV_INGRESS, ops_priority = 10,
      ops_priv = tbl, ops_dev = dev, net = None, registered = False, used = False\<rparr>"

definition xt_flowoffload_create_hook :: "bool \<Rightarrow> bool \<Rightarrow> net_device \<Rightarrow> world \<Rightarrow> world \<times> int" where
  "xt_flowoffload_create_hook kzalloc_ok tbl dev w =
     (if \<not> kzalloc_ok then (w, - ENOMEM)
      else (emit [ModDelayedWork tbl Delay_0]
              (set_hooks tbl (new_hook tbl dev # hooks (flowtable w tbl)) w), 0))"

definition flow_offload_lookup_hook ::
  "xt_flowoffload_table \<Rightarrow> net_device \<Rightarrow> xt_flowoffload_hook option" where
  "flow_offload_lookup_hook table dev = find (\<lambda>hook. ops_dev hook = dev) (hooks table)"

text \<open>The assignment \<open>hook->used = true\<close> to the hook the lookup has found.\<close>

fun mark_used :: "net_device \<Rightarrow> xt_flowoffload_hook list \<Rightarrow> xt_flowoffload_hook list" where
  "mark_used dev [] = []"
| "mark_used dev (hook # hs) =
     (if ops_dev hook = dev then hook\<lparr>used := True\<rparr> # hs else hook # mark_used dev hs)"

definition xt_flowoffload_check_device ::
  "bool \<Rightarrow> bool \<Rightarrow> net_device option \<Rightarrow> world \<Rightarrow> world" where
  "xt_flowoffload_check_device kzalloc_ok tbl devp w =
     (case devp of
        None \<Rightarrow> w
      | Some dev \<Rightarrow>
          let w1 = emit [SpinLock] w;
              w2 = (case flow_offload_lookup_hook (flowtable w1 tbl) dev of
                      Some hook \<Rightarrow> set_hooks tbl (mark_used dev (hooks (flowtable w1 tbl))) w1
                    | None \<Rightarrow> fst (xt_flowoffload_create_hook kzalloc_ok tbl dev w1))
          in emit [SpinUnlock] w2)"

section \<open>The periodic sweeper\<close>





lemma hooks_emit_set_hooks [simp]:
  "hooks (flowtable (emit es (set_hooks tbl hs w)) tbl) = hs"
  by (simp add: emit_def set_hooks_def)








text \<open>\<open>xt_flowoffload_check_hook\<close>, the callback of the flow iteration.\<close>

definition xt_flowoffload_check_hook :: "bool \<Rightarrow> flow_offload \<Rightarrow> world \<Rightarrow> world" where
  "xt_flowoffload_check_hook tbl flow w =
     (let w1 = emit [SpinLock] w;
          hs = map (\<lambda>hook.
                 if ifindex (ops_dev hook) \<noteq> iifidx0 flow \<and> ifindex (ops_dev hook) \<noteq> iifidx1 flow
                 then hook else hook\<lparr>used := True\<rparr>)
                 (hooks (flowtable w1 tbl))
      in emit [SpinUnlock] (set_hooks tbl hs w1))"


definition clear_used :: "bool \<Rightarrow> world \<Rightarrow> world" where
  "clear_used tbl w =
     set_hooks tbl (map (\<lambda>hook. hook\<lparr>used := False\<rparr>) (hooks (flowtable w tbl))) w"


section \<open>The device notifier\<close>

text \<open>
  \<open>hlist_del\<close> of the hook a lookup has found, which is the first of the list
  that is equal to it.
\<close>

definition hlist_del :: "xt_flowoffload_hook \<Rightarrow> bool \<Rightarrow> world \<Rightarrow> world" where
  "hlist_del hook tbl w =
     emit [HlistDel tbl (ops_dev hook)]
       (set_hooks tbl (remove1 hook (hooks (flowtable w tbl))) w)"

definition flow_offload_netdev_event :: "nat \<Rightarrow> net_device \<Rightarrow> world \<Rightarrow> world \<times> int" where
  "flow_offload_netdev_event event dev w =
     (if event \<noteq> NETDEV_UNREGISTER then (w, NOTIFY_DONE)
      else
        let w1 = emit [SpinLock] w;
            hook0 = flow_offload_lookup_hook (flowtable w1 False) dev;
            w2 = (case hook0 of Some h \<Rightarrow> hlist_del h False w1 | None \<Rightarrow> w1);
            hook1 = flow_offload_lookup_hook (flowtable w2 True) dev;
            w3 = (case hook1 of Some h \<Rightarrow> hlist_del h True w2 | None \<Rightarrow> w2);
            w4 = emit [SpinUnlock] w3;
            w5 = (case hook0 of
                    Some h \<Rightarrow> emit [NfUnregisterNetHook (net h) (ops_dev h),
                                     KfreeHook False (ops_dev h)] w4
                  | None \<Rightarrow> w4);
            w6 = (case hook1 of
                    Some h \<Rightarrow> emit [NfUnregisterNetHook (net h) (ops_dev h),
                                     KfreeHook True (ops_dev h)] w5
                  | None \<Rightarrow> w5)
        in (emit [NfFlowTableCleanup dev] w6, NOTIFY_DONE))"

section \<open>The path resolver\<close>

text \<open>
  Modelled from the spec: \<open>is_valid_ether_addr\<close> is a helper of
  \<open>include/linux/etherdevice.h\<close>; the spec names the addresses it rejects
  ("invalid/broadcast MAC"): the multicast addresses, whose first octet has its
  lowest bit set and which include broadcast, and the all-zero address.
\<close>

definition is_valid_ether_addr :: "mac \<Rightarrow> bool" where
  "is_valid_ether_addr a =
     (case a of [] \<Rightarrow> False
      | b # _ \<Rightarrow> \<not> bit b 0 \<and> (\<exists>x \<in> set (take ETH_ALEN a). x \<noteq> 0))"

definition flow_is_valid_ether_device :: "net_device option \<Rightarrow> bool" where
  "flow_is_valid_ether_device devp =
     (case devp of
        None \<Rightarrow> False
      | Some dev \<Rightarrow>
          \<not> (dev_flags dev AND IFF_LOOPBACK \<noteq> 0 \<or> dev_type dev \<noteq> ARPHRD_ETHER \<or>
             addr_len dev \<noteq> ETH_ALEN \<or> \<not> is_valid_ether_addr (dev_addr dev)))"

text \<open>
  The variables of the walk: the route, the current device and the \<open>last\<close> flag.
  Two further fields do not belong to the program and only record what has
  happened: \<open>read_outside\<close> is set when \<open>stack.path[i]\<close> has been read at an
  index that is not in the array, and \<open>popped_empty\<close> when \<open>num_encaps\<close> has been
  decremented while it was 0.
\<close>

record walk =
  w_route :: nf_flow_route
  w_dev :: net_device
  w_last :: bool
  read_outside :: bool
  popped_empty :: bool

text \<open>
  \<open>stack.path[i]\<close>: inside the array the entry, outside of it whatever lies
  behind the array in memory.
\<close>

definition path_at :: "net_device_path_stack \<Rightarrow> net_device_path \<Rightarrow> int \<Rightarrow> net_device_path" where
  "path_at stack beyond i =
     (if 0 \<le> i \<and> nat i < length (path stack) then path stack ! nat i else beyond)"

definition in_array :: "net_device_path_stack \<Rightarrow> int \<Rightarrow> bool" where
  "in_array stack i = (0 \<le> i \<and> nat i < length (path stack))"

text \<open>The three assignments that add one encapsulation layer at index \<open>n_encaps\<close>.\<close>

definition add_encap :: "bool \<Rightarrow> int \<Rightarrow> 16 word \<Rightarrow> 16 word \<Rightarrow> nf_flow_route \<Rightarrow> nf_flow_route" where
  "add_encap dir n_encaps eid eproto route =
     route(\<not> dir := (route (\<not> dir))
       \<lparr>in_encap := (in_encap (route (\<not> dir)))[nat n_encaps := (eid, eproto)],
        in_num_encaps := in_num_encaps (route (\<not> dir)) + 1\<rparr>)"

text \<open>
  \<open>BIT(n_encaps - 1)\<close> as it is stored into the two-bit field. For \<open>n_encaps = 0\<close>
  the shift count is negative, which C leaves undefined; no bit is set then.
\<close>

definition untag_hw_bit :: "int \<Rightarrow> 2 word" where
  "untag_hw_bit n_encaps = (if n_encaps < 1 then 0 else push_bit (nat (n_encaps - 1)) 1)"

text \<open>One iteration of the loop over the path, for the index \<open>i\<close>.\<close>

definition path_step ::
  "bool \<Rightarrow> net_device_path_stack \<Rightarrow> net_device_path \<Rightarrow> int \<Rightarrow> walk \<Rightarrow> walk" where
  "path_step dir stack beyond i s =
     (let p = path_at stack beyond i;
          route = w_route s;
          n_encaps = uint (in_num_encaps (route (\<not> dir)));
          dev = path_dev p;
          route1 =
            (if flow_is_valid_ether_device (Some dev)
             then (let r = (if xmit_type (route dir) \<noteq> FLOW_OFFLOAD_XMIT_DIRECT
                            then route(dir := (route dir)
                                   \<lparr>out_ifindex := ifindex dev,
                                    out_h_source := take ETH_ALEN (dev_addr dev)\<rparr>)
                            else route)
                   in r(dir := (r dir)\<lparr>xmit_type := FLOW_OFFLOAD_XMIT_DIRECT\<rparr>))
             else route);
          s1 = s\<lparr>w_route := route1, w_dev := dev,
                 read_outside := (read_outside s \<or> \<not> in_array stack i)\<rparr>
      in if path_type p = DEV_PATH_PPPOE \<or> path_type p = DEV_PATH_VLAN then
           (if int NF_FLOW_TABLE_ENCAP_MAX \<le> n_encaps \<or> i = num_paths stack
            then s1\<lparr>w_last := True\<rparr>
            else (let r = add_encap dir n_encaps (encap_id p) (encap_proto p) route1 in
                  s1\<lparr>w_route :=
                       (if path_type p = DEV_PATH_PPPOE
                        then r(dir := (r dir)\<lparr>out_h_dest := take ETH_ALEN (encap_h_dest p)\<rparr>)
                        else r)\<rparr>))
         else if path_type p = DEV_PATH_BRIDGE then
           (case bridge_vlan_mode p of
              DEV_PATH_BR_VLAN_TAG \<Rightarrow>
                (if int NF_FLOW_TABLE_ENCAP_MAX \<le> n_encaps \<or> i = num_paths stack
                 then s1\<lparr>w_last := True\<rparr>
                 else s1\<lparr>w_route :=
                        add_encap dir n_encaps (bridge_vlan_id p) (bridge_vlan_proto p) route1\<rparr>)
            | DEV_PATH_BR_VLAN_UNTAG \<Rightarrow>
                s1\<lparr>w_route := route1(\<not> dir := (route1 (\<not> dir))
                       \<lparr>in_num_encaps := in_num_encaps (route1 (\<not> dir)) - 1\<rparr>),
                   popped_empty :=
                     (popped_empty s \<or> in_num_encaps (route1 (\<not> dir)) = 0)\<rparr>
            | DEV_PATH_BR_VLAN_UNTAG_HW \<Rightarrow>
                s1\<lparr>w_route := route1(\<not> dir := (route1 (\<not> dir))
                       \<lparr>in_ingress_vlans :=
                          in_ingress_vlans (route1 (\<not> dir)) OR untag_hw_bit n_encaps\<rparr>)\<rparr>
            | DEV_PATH_BR_VLAN_KEEP \<Rightarrow> s1)
         else s1\<lparr>w_last := True\<rparr>)"

text \<open>
  The loop \<open>for (i = 0; i <= stack.num_paths; i++)\<close>, left at the first iteration
  that sets \<open>last\<close>. The result lists the state after each iteration.
\<close>

function path_loop ::
  "bool \<Rightarrow> net_device_path_stack \<Rightarrow> net_device_path \<Rightarrow> int \<Rightarrow> walk \<Rightarrow> walk list" where
  "path_loop dir stack beyond i s =
     (if i \<le> num_paths stack
      then (let s' = path_step dir stack beyond i s
            in s' # (if w_last s' then [] else path_loop dir stack beyond (i + 1) s'))
      else [])"
  by pat_completeness auto
termination
  by (relation "measure (\<lambda>(dir, stack, beyond, i, s). nat (num_paths stack + 1 - i))") auto

declare path_loop.simps [simp del]

text \<open>The variables before the loop, and the whole loop from index 0.\<close>

definition walk_start :: "nf_flow_route \<Rightarrow> net_device \<Rightarrow> walk" where
  "walk_start route dev =
     \<lparr>w_route = route, w_dev = dev, w_last = False, read_outside = False,
      popped_empty = False\<rparr>"

definition path_walk ::
  "bool \<Rightarrow> net_device_path_stack \<Rightarrow> net_device_path \<Rightarrow> nf_flow_route \<Rightarrow> net_device \<Rightarrow> walk" where
  "path_walk dir stack beyond route dev =
     last (walk_start route dev # path_loop dir stack beyond 0 (walk_start route dev))"

text \<open>
  \<open>xt_flowoffload_route_check_path\<close>. The argument \<open>out\<close> tells which entry of
  \<open>devs\<close> the pointer \<open>out_dev\<close> points to. The destination of the direction has
  been stored by \<open>xt_flowoffload_route_dir\<close> before the call, and both entries of
  \<open>devs\<close> are devices: \<open>flowoffload_tg\<close> returns early when one is NULL.
\<close>

definition xt_flowoffload_route_check_path ::
  "env \<Rightarrow> nf_conn \<Rightarrow> bool \<Rightarrow> bool \<Rightarrow> nf_flow_route \<Rightarrow> (bool \<Rightarrow> net_device) \<Rightarrow>
   nf_flow_route \<times> (bool \<Rightarrow> net_device)" where
  "xt_flowoffload_route_check_path e ct dir out route devs =
     (case dst (route dir) of
        None \<Rightarrow> (route, devs)
      | Some d \<Rightarrow>
          let daddr = tuple_src_u3 ct (\<not> dir);
              dev = dst_dev d;
              r0 = route(\<not> dir := (route (\<not> dir))\<lparr>in_ifindex := ifindex dev\<rparr>);
              r1 = r0(dir := (r0 dir)\<lparr>out_ifindex := ifindex dev\<rparr>)
          in if xmit_type (r1 dir) = FLOW_OFFLOAD_XMIT_XFRM then (r1, devs)
             else if dev_flags dev AND IFF_LOOPBACK \<noteq> 0 \<or> dev_type dev \<noteq> ARPHRD_ETHER \<or>
                     addr_len dev \<noteq> ETH_ALEN \<or> \<not> is_valid_ether_addr (dev_addr dev)
             then (r1, devs)
             else (case dst_neigh_lookup e d daddr of
                     None \<Rightarrow> (r1, devs)
                   | Some n \<Rightarrow>
                       let r2 = r1(dir := (r1 dir)\<lparr>out_h_dest := take ETH_ALEN (ha n)\<rparr>)
                       in if nud_state n AND NUD_VALID = 0 then (r2, devs)
                          else (case dev_fill_forward_path e dev (out_h_dest (r2 dir)) of
                                  (ret, stack) \<Rightarrow>
                                    if ret \<noteq> 0 \<or> num_paths stack = 0 then (r2, devs)
                                    else
                                      let s = path_walk dir stack (beyond_path e) r2 dev;
                                          r3 = w_route s;
                                          r4 = r3(dir := (r3 dir)
                                                 \<lparr>out_hw_ifindex := ifindex (w_dev s)\<rparr>);
                                          r5 = r4(\<not> dir := (r4 (\<not> dir))
                                                 \<lparr>in_ifindex := ifindex (w_dev s)\<rparr>)
                                      in (r5, devs(out := w_dev s)))))"

section \<open>The admission decision\<close>

definition xt_flowoffload_skip :: "sk_buff \<Rightarrow> nat \<Rightarrow> bool" where
  "xt_flowoffload_skip pkt fam =
     (if sec_path pkt then True
      else if fam = NFPROTO_IPV4 \<and> opt_optlen pkt \<noteq> 0 then True
      else False)"

text \<open>
  \<open>xt_flowoffload_route_dir\<close>. A destination that \<open>nf_route\<close> hands out carries a
  reference, recorded as \<open>DstAcquire\<close>.
\<close>

definition xt_flowoffload_route_dir ::
  "env \<Rightarrow> nf_conn \<Rightarrow> bool \<Rightarrow> xt_action_param \<Rightarrow> int \<Rightarrow> nf_flow_route \<Rightarrow> world \<Rightarrow>
   int \<times> nf_flow_route \<times> world" where
  "xt_flowoffload_route_dir e ct dir par oif route w =
     (let fl = (if family par = NFPROTO_IPV4
                then Flowi4 (u3_ip (tuple_src_u3 ct (\<not> dir))) oif
                else if family par = NFPROTO_IPV6
                then Flowi6 (tuple_dst_u3 ct (\<not> dir)) (tuple_src_u3 ct (\<not> dir)) oif
                else Flowi_zero)
      in case nf_route e (par_net par) fl (family par) of
           None \<Rightarrow> (- ENOENT, route, w)
         | Some d \<Rightarrow>
             (0,
              route(dir := (route dir)
                \<lparr>dst := Some d,
                 xmit_type := (if dst_xfrm d then FLOW_OFFLOAD_XMIT_XFRM
                               else FLOW_OFFLOAD_XMIT_NEIGH)\<rparr>),
              emit [DstAcquire (dst_id d)] w))"

definition xt_flowoffload_route ::
  "env \<Rightarrow> nf_conn \<Rightarrow> xt_action_param \<Rightarrow> bool \<Rightarrow> nf_flow_route \<Rightarrow> (bool \<Rightarrow> net_device) \<Rightarrow>
   world \<Rightarrow> int \<times> nf_flow_route \<times> (bool \<Rightarrow> net_device) \<times> world" where
  "xt_flowoffload_route e ct par dir route devs w =
     (case xt_flowoffload_route_dir e ct dir par (ifindex (devs dir)) route w of
        (ret, route1, w1) \<Rightarrow>
          if ret \<noteq> 0 then (ret, route1, devs, w1)
          else (case xt_flowoffload_route_dir e ct (\<not> dir) par (ifindex (devs (\<not> dir))) route1 w1 of
                  (ret, route2, w2) \<Rightarrow>
                    if ret \<noteq> 0 then (ret, route2, devs, w2)
                    else (case xt_flowoffload_route_check_path e ct dir (\<not> dir) route2 devs of
                            (route3, devs3) \<Rightarrow>
                              (case xt_flowoffload_route_check_path e ct (\<not> dir) dir route3 devs3 of
                                 (route4, devs4) \<Rightarrow> (0, route4, devs4, w2)))))"

text \<open>\<open>struct nf_flow_route route = {}\<close>.\<close>

definition zero_tuple :: route_tuple where
  "zero_tuple =
     \<lparr>dst = None, in_ifindex = 0,
      in_encap = replicate NF_FLOW_TABLE_ENCAP_MAX (0, 0),
      in_num_encaps = 0, in_ingress_vlans = 0, out_ifindex = 0, out_hw_ifindex = 0,
      out_h_source = replicate ETH_ALEN 0, out_h_dest = replicate ETH_ALEN 0,
      xmit_type = FLOW_OFFLOAD_XMIT_UNSPEC\<rparr>"

definition zero_route :: nf_flow_route where
  "zero_route = (\<lambda>dir. zero_tuple)"

definition dst_release :: "dst_entry option \<Rightarrow> world \<Rightarrow> world" where
  "dst_release dp w = (case dp of None \<Rightarrow> w | Some d \<Rightarrow> emit [DstRelease (dst_id d)] w)"

definition set_status :: "64 word \<Rightarrow> world \<Rightarrow> world" where
  "set_status st w = w\<lparr>conn := map_option (\<lambda>ct. ct\<lparr>status := st\<rparr>) (conn w)\<rparr>"

definition clear_offload_bit :: "world \<Rightarrow> world" where
  "clear_offload_bit w =
     w\<lparr>conn := map_option (\<lambda>ct. ct\<lparr>status := unset_bit IPS_OFFLOAD_BIT (status ct)\<rparr>) (conn w)\<rparr>"

definition be_liberal :: "world \<Rightarrow> world" where
  "be_liberal w =
     w\<lparr>conn := map_option
          (\<lambda>ct. ct\<lparr>tcp_seen_flags :=
                     (\<lambda>i. tcp_seen_flags ct i OR IP_CT_TCP_FLAG_BE_LIBERAL)\<rparr>) (conn w)\<rparr>"

text \<open>
  Modelled from the spec: \<open>flow_offload_route_init\<close> and \<open>flow_offload_add\<close> belong
  to the flow store. The store "initializes a flow entry's forwarding info from a
  Route" and "inserts a flow entry into a named table"; of the entry, this file
  later reads "either direction's recorded device index", which is the ingress
  index of the route's tuple of that direction.
\<close>

definition flow_of_route :: "nf_flow_route \<Rightarrow> flow_offload" where
  "flow_of_route route =
     \<lparr>iifidx0 = in_ifindex (route False), iifidx1 = in_ifindex (route True)\<rparr>"

definition flow_offload_add :: "bool \<Rightarrow> flow_offload \<Rightarrow> world \<Rightarrow> world" where
  "flow_offload_add tbl flow w =
     emit [FlowOffloadAdd tbl]
       (w\<lparr>flowtable := (flowtable w)
            (tbl := (flowtable w tbl)\<lparr>ft_flows := flow # ft_flows (flowtable w tbl)\<rparr>)\<rparr>)"

definition bind_net :: "bool \<Rightarrow> nat \<Rightarrow> world \<Rightarrow> world" where
  "bind_net tbl n w =
     (case ft_net (flowtable w tbl) of
        None \<Rightarrow> w\<lparr>flowtable := (flowtable w)(tbl := (flowtable w tbl)\<lparr>ft_net := Some n\<rparr>)\<rparr>
      | Some _ \<Rightarrow> w)"

text \<open>The three labels at the end of \<open>flowoffload_tg\<close>, each falling into the next.\<close>

definition err_flow_route :: "world \<Rightarrow> nat \<times> world" where
  "err_flow_route w = (XT_CONTINUE, clear_offload_bit w)"

definition err_flow_alloc :: "bool \<Rightarrow> nf_flow_route \<Rightarrow> world \<Rightarrow> nat \<times> world" where
  "err_flow_alloc dir route w =
     err_flow_route (dst_release (dst (route (\<not> dir))) (dst_release (dst (route dir)) w))"

definition err_flow_add :: "bool \<Rightarrow> nf_flow_route \<Rightarrow> world \<Rightarrow> nat \<times> world" where
  "err_flow_add dir route w = err_flow_alloc dir route (emit [FlowOffloadFree] w)"

text \<open>
  \<open>flowoffload_tg\<close> from \<open>test_and_set_bit\<close> on: the connection \<open>ct\<close>, the TCP
  header (or NULL), and the two devices have passed the checks before.
\<close>

definition tg_offload ::
  "env \<Rightarrow> xt_action_param \<Rightarrow> nf_conn \<Rightarrow> tcphdr option \<Rightarrow> (bool \<Rightarrow> net_device) \<Rightarrow> world \<Rightarrow>
   nat \<times> world" where
  "tg_offload e par ct tcph devs w =
     (if bit (status ct) IPS_OFFLOAD_BIT then (XT_CONTINUE, w)
      else
        let ct1 = ct\<lparr>status := set_bit IPS_OFFLOAD_BIT (status ct)\<rparr>;
            w1 = set_status (status ct1) w;
            dir = (IP_CT_IS_REPLY \<le> ctinfo (skb w))
        in case xt_flowoffload_route e ct1 par dir zero_route devs w1 of
             (ret, route, devs1, w2) \<Rightarrow>
               if ret < 0 then err_flow_route w2
               else if \<not> flow_offload_alloc_ok e then err_flow_alloc dir route w2
               else
                 let w3 = emit [FlowOffloadAlloc] w2 in
                 if flow_offload_route_init_ret e < 0 then err_flow_add dir route w3
                 else
                   let w4 = (if tcph \<noteq> None then be_liberal w3 else w3);
                       tbl = (targinfo_flags par AND XT_FLOWOFFLOAD_HW \<noteq> 0)
                   in if flow_offload_add_ret e < 0 then err_flow_add dir route w4
                      else
                        let w5 = flow_offload_add tbl (flow_of_route route) w4;
                            w6 = xt_flowoffload_check_device (kzalloc_hook0_ok e) tbl
                                   (Some (devs1 False)) w5;
                            w7 = xt_flowoffload_check_device (kzalloc_hook1_ok e) tbl
                                   (Some (devs1 True)) w6;
                            w8 = bind_net tbl (par_net par) w7;
                            w9 = dst_release (dst (route dir)) w8
                        in (XT_CONTINUE, dst_release (dst (route (\<not> dir))) w9))"

text \<open>
  \<open>flowoffload_tg\<close> after the \<open>switch\<close> on the protocol: the checks on the
  helper, the sequence adjustment, the confirmation and the two devices, then the
  part above. \<open>tcph\<close> is NULL unless the \<open>switch\<close> has read the TCP header.
\<close>

definition tg_checks ::
  "env \<Rightarrow> xt_action_param \<Rightarrow> nf_conn \<Rightarrow> tcphdr option \<Rightarrow> world \<Rightarrow> nat \<times> world" where
  "tg_checks e par ct tcph w =
     (if ext_helper ct \<or> status ct AND IPS_SEQ_ADJUST \<noteq> 0 then (XT_CONTINUE, w)
      else if \<not> bit (status ct) IPS_CONFIRMED_BIT then (XT_CONTINUE, w)
      else
        let dir = (IP_CT_IS_REPLY \<le> ctinfo (skb w));
            devs = (\<lambda>d. if d = dir then par_out par else par_in par)
        in (case (devs dir, devs (\<not> dir)) of
              (Some dev_out, Some dev_in) \<Rightarrow>
                tg_offload e par ct tcph (\<lambda>d. if d = dir then dev_out else dev_in) w
            | _ \<Rightarrow> (XT_CONTINUE, w)))"

definition flowoffload_tg :: "env \<Rightarrow> xt_action_param \<Rightarrow> world \<Rightarrow> nat \<times> world" where
  "flowoffload_tg e par w =
     (if xt_flowoffload_skip (skb w) (family par) then (XT_CONTINUE, w)
      else case conn w of
        None \<Rightarrow> (XT_CONTINUE, w)
      | Some ct \<Rightarrow>
          if orig_protonum ct = IPPROTO_TCP then
            (if tcp_state ct \<noteq> TCP_CONNTRACK_ESTABLISHED then (XT_CONTINUE, w)
             else (case tcp_header (skb w) of
                     None \<Rightarrow> (XT_CONTINUE, w)
                   | Some th \<Rightarrow>
                       if fin th \<or> rst th then (XT_CONTINUE, w)
                       else tg_checks e par ct (Some th) w))
          else if orig_protonum ct = IPPROTO_UDP then tg_checks e par ct None w
          else (XT_CONTINUE, w))"

section \<open>Notions used in the statements\<close>



definition for_dev :: "net_device \<Rightarrow> xt_flowoffload_hook list \<Rightarrow> xt_flowoffload_hook list" where
  "for_dev dev hs = filter (\<lambda>hook. ops_dev hook = dev) hs"

definition is_push :: "net_device_path \<Rightarrow> bool" where
  "is_push p =
     (path_type p = DEV_PATH_PPPOE \<or> path_type p = DEV_PATH_VLAN \<or>
      path_type p = DEV_PATH_BRIDGE \<and> bridge_vlan_mode p = DEV_PATH_BR_VLAN_TAG)"

definition encaps_ok :: "bool \<Rightarrow> walk \<Rightarrow> bool" where
  "encaps_ok dir s =
     (popped_empty s \<or> unat (in_num_encaps (w_route s (\<not> dir))) \<le> NF_FLOW_TABLE_ENCAP_MAX)"

definition acquired :: "event list \<Rightarrow> nat list" where
  "acquired es = concat (map (\<lambda>ev. case ev of DstAcquire d \<Rightarrow> [d] | _ \<Rightarrow> []) es)"

definition released :: "event list \<Rightarrow> nat list" where
  "released es = concat (map (\<lambda>ev. case ev of DstRelease d \<Rightarrow> [d] | _ \<Rightarrow> []) es)"

section \<open>Example inputs\<close>

definition ex_dev_lan :: net_device where
  "ex_dev_lan = \<lparr>ifindex = 2, dev_flags = 0, dev_type = 1, addr_len = 6,
                  dev_addr = [2, 0, 0, 0, 0, 1], nd_net = 0\<rparr>"

definition ex_dev_wan :: net_device where
  "ex_dev_wan = \<lparr>ifindex = 3, dev_flags = 0, dev_type = 1, addr_len = 6,
                  dev_addr = [2, 0, 0, 0, 0, 2], nd_net = 0\<rparr>"

definition ex_table :: xt_flowoffload_table where
  "ex_table = \<lparr>ft_flags = 0, ft_net = None, ft_flows = [], hooks = []\<rparr>"

definition ex_skb :: sk_buff where
  "ex_skb = \<lparr>sec_path = False, opt_optlen = 0, protocol = 0x0008, ctinfo = 0,
              tcp_header = None\<rparr>"

definition ex_conn :: "8 word \<Rightarrow> nf_conn" where
  "ex_conn proto =
     \<lparr>orig_protonum = proto, tuple_src_u3 = (\<lambda>d. [0x0A000001, 0, 0, 0]),
      tuple_dst_u3 = (\<lambda>d. [0x0A000002, 0, 0, 0]), tcp_state = 0,
      tcp_seen_flags = (\<lambda>i. 0), status = 0x8, ext_helper = False\<rparr>"

definition ex_world :: "8 word \<Rightarrow> world" where
  "ex_world proto =
     \<lparr>flowtable = (\<lambda>tbl. ex_table), skb = ex_skb, conn = Some (ex_conn proto), trace = []\<rparr>"

definition ex_par :: xt_action_param where
  "ex_par = \<lparr>family = 2, par_in = Some ex_dev_lan, par_out = Some ex_dev_wan, par_net = 0,
              targinfo_flags = 0\<rparr>"

definition ex_dst :: dst_entry where
  "ex_dst = \<lparr>dst_id = 7, dst_dev = ex_dev_wan, dst_xfrm = False\<rparr>"

definition ex_path :: net_device_path where
  "ex_path = \<lparr>path_type = DEV_PATH_ETHERNET, path_dev = ex_dev_wan, encap_id = 0,
               encap_proto = 0, encap_h_dest = [0, 0, 0, 0, 0, 0],
               bridge_vlan_mode = DEV_PATH_BR_VLAN_KEEP, bridge_vlan_id = 0,
               bridge_vlan_proto = 0\<rparr>"

definition ex_env_second_route_fails :: env where
  "ex_env_second_route_fails =
     \<lparr>nf_route = (\<lambda>n fl fam. case fl of Flowi4 daddr oif \<Rightarrow>
                                      if oif = 3 then Some ex_dst else None
                                  | _ \<Rightarrow> None),
      dst_neigh_lookup = (\<lambda>d a. None),
      dev_fill_forward_path = (\<lambda>dev a. (- 1, \<lparr>num_paths = 0, path = []\<rparr>)),
      beyond_path = ex_path,
      flow_offload_alloc_ok = True, flow_offload_route_init_ret = 0,
      flow_offload_add_ret = 0, kzalloc_hook0_ok = True, kzalloc_hook1_ok = True\<rparr>"

definition ex_world_hooked :: world where
  "ex_world_hooked =
     (ex_world 17)\<lparr>flowtable := (\<lambda>tbl. ex_table\<lparr>hooks := [new_hook tbl ex_dev_lan]\<rparr>)\<rparr>"


definition ex_seg :: "net_device_path_type \<Rightarrow> bridge_vlan_mode \<Rightarrow> net_device_path" where
  "ex_seg ptype mode =
     \<lparr>path_type = ptype, path_dev = ex_dev_lan, encap_id = 100, encap_proto = 0x0081,
      encap_h_dest = [2, 0, 0, 0, 0, 9], bridge_vlan_mode = mode, bridge_vlan_id = 100,
      bridge_vlan_proto = 0x0081\<rparr>"

definition ex_untag_stack :: net_device_path_stack where
  "ex_untag_stack =
     \<lparr>num_paths = 2,
      path = [ex_seg DEV_PATH_BRIDGE DEV_PATH_BR_VLAN_UNTAG,
              ex_seg DEV_PATH_ETHERNET DEV_PATH_BR_VLAN_KEEP, ex_path, ex_path, ex_path]\<rparr>"

definition ex_vlan_stack :: net_device_path_stack where
  "ex_vlan_stack =
     \<lparr>num_paths = 4,
      path = [ex_seg DEV_PATH_VLAN DEV_PATH_BR_VLAN_KEEP,
              ex_seg DEV_PATH_VLAN DEV_PATH_BR_VLAN_KEEP,
              ex_seg DEV_PATH_VLAN DEV_PATH_BR_VLAN_KEEP,
              ex_seg DEV_PATH_ETHERNET DEV_PATH_BR_VLAN_KEEP, ex_path]\<rparr>"


section \<open>Properties of the admission decision and of the ingress hook\<close>

lemma skb_emit [simp]: "skb (emit es w) = skb w"
  by (simp add: emit_def)

lemma skb_set_hooks [simp]: "skb (set_hooks tbl hs w) = skb w"
  by (simp add: set_hooks_def)

lemma skb_check_device [simp]: "skb (xt_flowoffload_check_device k tbl d w) = skb w"
  by (simp add: xt_flowoffload_check_device_def xt_flowoffload_create_hook_def Let_def
      split: option.splits)

lemma skb_dst_release [simp]: "skb (dst_release d w) = skb w"
  by (simp add: dst_release_def split: option.splits)

lemma skb_route_dir:
  "xt_flowoffload_route_dir e ct dir par oif route w = (ret, route', w') \<Longrightarrow> skb w' = skb w"
  by (auto simp: xt_flowoffload_route_dir_def Let_def split: option.splits)

lemma skb_route:
  "xt_flowoffload_route e ct par dir route devs w = (ret, route', devs', w') \<Longrightarrow> skb w' = skb w"
  by (auto simp: xt_flowoffload_route_def xt_flowoffload_route_dir_def Let_def
      split: prod.splits if_splits option.splits)

lemma skb_misc [simp]:
  "skb (clear_offload_bit w) = skb w" "skb (set_status st w) = skb w"
  "skb (be_liberal w) = skb w" "skb (flow_offload_add tbl f w) = skb w"
  "skb (bind_net tbl n w) = skb w"
  by (simp_all add: clear_offload_bit_def set_status_def be_liberal_def flow_offload_add_def
      bind_net_def emit_def split: option.splits)

lemma tg_offload_verdict:
  "fst (tg_offload e par ct tcph devs w) = XT_CONTINUE \<and>
   skb (snd (tg_offload e par ct tcph devs w)) = skb w"
  by (auto simp: tg_offload_def Let_def err_flow_route_def err_flow_alloc_def err_flow_add_def
      split: prod.splits dest: skb_route)

lemma tg_checks_verdict:
  "fst (tg_checks e par ct tcph w) = XT_CONTINUE \<and>
   skb (snd (tg_checks e par ct tcph w)) = skb w"
  by (simp add: tg_checks_def Let_def tg_offload_verdict split: option.splits)

text \<open>
  C3: for every packet, parameter block, environment and state, \<open>flowoffload_tg\<close>
  returns \<open>XT_CONTINUE\<close>, on success, on every failure branch and on every
  skip, and it leaves the packet as it was.
\<close>

theorem flowoffload_tg_pass_through:
  "fst (flowoffload_tg e par w) = XT_CONTINUE \<and> skb (snd (flowoffload_tg e par w)) = skb w"
  by (simp add: flowoffload_tg_def tg_checks_verdict split: option.splits)

text \<open>
  C10: the ingress hook returns \<open>NF_ACCEPT\<close> whenever the flow table holds no
  entries or the packet's protocol is neither IPv4 nor IPv6, whatever the fast-path
  functions would answer; a packet is handed to the IPv4 or IPv6 fast-path function
  only when the table is not empty and the protocol is the matching one.
\<close>

theorem net_hook_accept:
  "(ft_nelems ft = 0 \<or> (protocol pkt \<noteq> htons ETH_P_IP \<and> protocol pkt \<noteq> htons ETH_P_IPV6) \<longrightarrow>
      xt_flowoffload_net_hook ip_hook ipv6_hook ft pkt = NF_ACCEPT) \<and>
   (ft_nelems ft \<noteq> 0 \<and> protocol pkt = htons ETH_P_IP \<longrightarrow>
      xt_flowoffload_net_hook ip_hook ipv6_hook ft pkt = ip_hook ft pkt) \<and>
   (ft_nelems ft \<noteq> 0 \<and> protocol pkt = htons ETH_P_IPV6 \<longrightarrow>
      xt_flowoffload_net_hook ip_hook ipv6_hook ft pkt = ipv6_hook ft pkt)"
  by (simp add: xt_flowoffload_net_hook_def htons_def ETH_P_IP_def ETH_P_IPV6_def)

text \<open>
  C2: when a check made before the offload bit is set fails (the packet is to be
  skipped, it has no connection, the connection is neither TCP in established
  state with a readable header without FIN and RST nor UDP, it has a helper or
  sequence adjustment, it is not confirmed, or a device is missing),
  \<open>flowoffload_tg\<close> returns \<open>XT_CONTINUE\<close> and the state is unchanged: no bit set,
  no flow entry, no hook, no event.
\<close>

theorem tg_ineligible_no_effect:
  assumes "xt_flowoffload_skip (skb w) (family par) \<or> conn w = None \<or>
           (\<exists>ct. conn w = Some ct \<and>
              (\<not> (orig_protonum ct = IPPROTO_TCP \<and> tcp_state ct = TCP_CONNTRACK_ESTABLISHED \<and>
                   (\<exists>th. tcp_header (skb w) = Some th \<and> \<not> fin th \<and> \<not> rst th)) \<and>
               orig_protonum ct \<noteq> IPPROTO_UDP \<or>
               ext_helper ct \<or> status ct AND IPS_SEQ_ADJUST \<noteq> 0 \<or>
               \<not> bit (status ct) IPS_CONFIRMED_BIT)) \<or>
           par_in par = None \<or> par_out par = None"
  shows "flowoffload_tg e par w = (XT_CONTINUE, w)"
  using assms
  by (auto simp: flowoffload_tg_def tg_checks_def Let_def IPPROTO_TCP_def IPPROTO_UDP_def
      split: option.splits)


theorem tg_ineligible_no_effect_witness:
  "flowoffload_tg ex_env_second_route_fails ex_par (ex_world 1) = (XT_CONTINUE, ex_world 1)"
  using tg_ineligible_no_effect [of "ex_world 1" ex_par ex_env_second_route_fails]
  by (simp add: ex_world_def ex_conn_def IPPROTO_TCP_def IPPROTO_UDP_def)

theorem net_hook_accept_witness:
  "xt_flowoffload_net_hook (\<lambda>ft pkt. 0) (\<lambda>ft pkt. 0) ex_table ex_skb = NF_ACCEPT \<and>
   xt_flowoffload_net_hook (\<lambda>ft pkt. 7) (\<lambda>ft pkt. 0)
     (ex_table\<lparr>ft_flows := [\<lparr>iifidx0 = 2, iifidx1 = 3\<rparr>]\<rparr>) ex_skb = 7 \<and>
   xt_flowoffload_net_hook (\<lambda>ft pkt. 0) (\<lambda>ft pkt. 9)
     (ex_table\<lparr>ft_flows := [\<lparr>iifidx0 = 2, iifidx1 = 3\<rparr>]\<rparr>) (ex_skb\<lparr>protocol := 0xDD86\<rparr>) = 9"
  using net_hook_accept [of ex_table ex_skb "\<lambda>ft pkt. 0" "\<lambda>ft pkt. 0"]
    net_hook_accept [of "ex_table\<lparr>ft_flows := [\<lparr>iifidx0 = 2, iifidx1 = 3\<rparr>]\<rparr>" ex_skb
      "\<lambda>ft pkt. 7" "\<lambda>ft pkt. 0"]
    net_hook_accept [of "ex_table\<lparr>ft_flows := [\<lparr>iifidx0 = 2, iifidx1 = 3\<rparr>]\<rparr>"
      "ex_skb\<lparr>protocol := 0xDD86\<rparr>" "\<lambda>ft pkt. 0" "\<lambda>ft pkt. 9"]
  by (simp add: ex_table_def ex_skb_def ft_nelems_def htons_def ETH_P_IP_def ETH_P_IPV6_def)

section \<open>Properties of the hook registry, the sweeper and the device notifier\<close>

subsection \<open>The registry\<close>


lemma lookup_Some_dev: "flow_offload_lookup_hook t dev = Some h \<Longrightarrow> ops_dev h = dev"
  by (auto simp: flow_offload_lookup_hook_def find_Some_iff)


lemma flowtable_emit [simp]: "flowtable (emit es w) = flowtable w"
  by (simp add: emit_def)

lemma trace_emit [simp]: "trace (emit es w) = trace w @ es"
  by (simp add: emit_def)

lemma trace_set_hooks [simp]: "trace (set_hooks tbl hs w) = trace w"
  by (simp add: set_hooks_def)

lemma hooks_set_hooks [simp]:
  "hooks (flowtable (set_hooks tbl hs w) tbl') =
     (if tbl' = tbl then hs else hooks (flowtable w tbl'))"
  by (simp add: set_hooks_def)

lemma ft_flows_set_hooks [simp]:
  "ft_flows (flowtable (set_hooks tbl hs w) tbl') = ft_flows (flowtable w tbl')"
  by (simp add: set_hooks_def)






subsection \<open>The device notifier\<close>

lemma find_remove1:
  "find P hs = Some h \<Longrightarrow> filter P (remove1 h hs) = tl (filter P hs)"
proof (induction hs)
  case Nil
  then show ?case by simp
next
  case (Cons x xs)
  show ?case
  proof (cases "P x")
    case True
    with Cons.prems show ?thesis by simp
  next
    case False
    with Cons.prems have f: "find P xs = Some h" by simp
    then have "P h" by (auto simp: find_Some_iff)
    with False have "h \<noteq> x" by auto
    with False Cons.IH [OF f] show ?thesis by simp
  qed
qed

text \<open>
  C9: on \<open>NETDEV_UNREGISTER\<close> for a device that has a hook in both tables, the
  notifier takes the lock, unlinks the hook of table 0 and the hook of table 1,
  drops the lock, then unregisters and frees the first and the second hook, and at
  last asks the flow store to clean up the device; no condition on \<open>used\<close> or
  \<open>registered\<close> is involved, and no sweep. Each table loses exactly the hook the
  lookup has found, the first one for the device.
\<close>

theorem netdev_unregister_revokes:
  assumes "flow_offload_lookup_hook (flowtable w False) dev = Some h0"
    and "flow_offload_lookup_hook (flowtable w True) dev = Some h1"
  shows "snd (flow_offload_netdev_event NETDEV_UNREGISTER dev w) = NOTIFY_DONE \<and>
         trace (fst (flow_offload_netdev_event NETDEV_UNREGISTER dev w)) =
           trace w @ [SpinLock, HlistDel False dev, HlistDel True dev, SpinUnlock,
                      NfUnregisterNetHook (net h0) dev, KfreeHook False dev,
                      NfUnregisterNetHook (net h1) dev, KfreeHook True dev,
                      NfFlowTableCleanup dev] \<and>
         hooks (flowtable (fst (flow_offload_netdev_event NETDEV_UNREGISTER dev w)) False) =
           remove1 h0 (hooks (flowtable w False)) \<and>
         hooks (flowtable (fst (flow_offload_netdev_event NETDEV_UNREGISTER dev w)) True) =
           remove1 h1 (hooks (flowtable w True)) \<and>
         for_dev dev (hooks (flowtable (fst (flow_offload_netdev_event NETDEV_UNREGISTER dev w)) False)) =
           tl (for_dev dev (hooks (flowtable w False))) \<and>
         for_dev dev (hooks (flowtable (fst (flow_offload_netdev_event NETDEV_UNREGISTER dev w)) True)) =
           tl (for_dev dev (hooks (flowtable w True)))"
proof -
  have d: "ops_dev h0 = dev" "ops_dev h1 = dev"
    using assms by (auto dest: lookup_Some_dev)
  have l1: "flow_offload_lookup_hook
              (flowtable (hlist_del h0 False (emit [SpinLock] w)) True) dev = Some h1"
    using assms(2) by (simp add: flow_offload_lookup_hook_def hlist_del_def)
  have f0: "for_dev dev (remove1 h0 (hooks (flowtable w False))) =
              tl (for_dev dev (hooks (flowtable w False)))"
    using assms(1) unfolding flow_offload_lookup_hook_def for_dev_def by (rule find_remove1)
  have f1: "for_dev dev (remove1 h1 (hooks (flowtable w True))) =
              tl (for_dev dev (hooks (flowtable w True)))"
    using assms(2) unfolding flow_offload_lookup_hook_def for_dev_def by (rule find_remove1)
  show ?thesis
    using assms(1) l1 d f0 f1
    by (simp add: flow_offload_netdev_event_def Let_def hlist_del_def)
qed

theorem netdev_unregister_revokes_witness:
  "snd (flow_offload_netdev_event NETDEV_UNREGISTER ex_dev_lan ex_world_hooked) = NOTIFY_DONE \<and>
   trace (fst (flow_offload_netdev_event NETDEV_UNREGISTER ex_dev_lan ex_world_hooked)) =
     [SpinLock, HlistDel False ex_dev_lan, HlistDel True ex_dev_lan, SpinUnlock,
      NfUnregisterNetHook None ex_dev_lan, KfreeHook False ex_dev_lan,
      NfUnregisterNetHook None ex_dev_lan, KfreeHook True ex_dev_lan,
      NfFlowTableCleanup ex_dev_lan] \<and>
   hooks (flowtable (fst (flow_offload_netdev_event NETDEV_UNREGISTER ex_dev_lan ex_world_hooked))
     False) = [] \<and>
   hooks (flowtable (fst (flow_offload_netdev_event NETDEV_UNREGISTER ex_dev_lan ex_world_hooked))
     True) = []"
  using netdev_unregister_revokes [of ex_world_hooked ex_dev_lan
      "new_hook False ex_dev_lan" "new_hook True ex_dev_lan"]
  by (simp add: ex_world_hooked_def ex_world_def ex_table_def flow_offload_lookup_hook_def
      new_hook_def)

subsection \<open>The sweeper\<close>














lemma clear_used_simps [simp]:
  "hooks (flowtable (clear_used tbl w) tbl) =
     map (\<lambda>hook. hook\<lparr>used := False\<rparr>) (hooks (flowtable w tbl))"
  "ft_flows (flowtable (clear_used tbl w) tbl') = ft_flows (flowtable w tbl')"
  "trace (clear_used tbl w) = trace w"
  by (simp_all add: clear_used_def)

lemma check_hook_flows [simp]:
  "ft_flows (flowtable (xt_flowoffload_check_hook tbl f w) tbl') = ft_flows (flowtable w tbl')"
  by (simp add: xt_flowoffload_check_hook_def Let_def)

lemma fold_check_hook_flows [simp]:
  "ft_flows (flowtable (fold (xt_flowoffload_check_hook tbl) fs w) tbl') =
     ft_flows (flowtable w tbl')"
  by (induction fs arbitrary: w) simp_all







section \<open>Properties of the path resolver\<close>

lemma two_bit_cases: "(n :: 2 word) = 0 \<or> n = 1 \<or> n = 2 \<or> n = 3"
proof -
  have "uint n < 4" using uint_lt2p [of n] by simp
  moreover have "0 \<le> uint n" by simp
  ultimately have "uint n = 0 \<or> uint n = 1 \<or> uint n = 2 \<or> uint n = 3" by arith
  then show ?thesis by (simp add: word_uint_eq_iff)
qed

lemma read_outside_step:
  "read_outside (path_step dir stack beyond i s) = (read_outside s \<or> \<not> in_array stack i)"
  by (simp add: path_step_def Let_def split: bridge_vlan_mode.splits)

lemma w_dev_step: "w_dev (path_step dir stack beyond i s) = path_dev (path_at stack beyond i)"
  by (simp add: path_step_def Let_def split: bridge_vlan_mode.splits)

lemma path_step_encaps_ok:
  "encaps_ok dir s \<Longrightarrow> encaps_ok dir (path_step dir stack beyond i s)"
  using two_bit_cases [of "in_num_encaps (w_route s (\<not> dir))"]
  by (auto simp: encaps_ok_def path_step_def Let_def add_encap_def NF_FLOW_TABLE_ENCAP_MAX_def
      split: bridge_vlan_mode.splits)

lemma path_loop_encaps_ok:
  "encaps_ok dir s \<Longrightarrow> \<forall>s' \<in> set (path_loop dir stack beyond i s). encaps_ok dir s'"
proof (induction dir stack beyond i s rule: path_loop.induct)
  case (1 dir stack beyond i s)
  show ?case
  proof (cases "i \<le> num_paths stack")
    case False
    then show ?thesis by (subst path_loop.simps) simp
  next
    case True
    let ?s = "path_step dir stack beyond i s"
    have ok: "encaps_ok dir ?s" using "1.prems" by (rule path_step_encaps_ok)
    show ?thesis
    proof (cases "w_last ?s")
      case True
      with \<open>i \<le> num_paths stack\<close> ok show ?thesis
        by (subst path_loop.simps) (simp add: Let_def)
    next
      case False
      from "1.IH" [OF \<open>i \<le> num_paths stack\<close> refl False ok] False \<open>i \<le> num_paths stack\<close> ok
      show ?thesis by (subst path_loop.simps) (simp add: Let_def)
    qed
  qed
qed

lemma path_loop_length:
  "length (path_loop dir stack beyond i s) \<le> nat (num_paths stack + 1 - i)"
proof (induction dir stack beyond i s rule: path_loop.induct)
  case (1 dir stack beyond i s)
  show ?case
  proof (cases "i \<le> num_paths stack")
    case False
    then show ?thesis by (subst path_loop.simps) simp
  next
    case True
    let ?s = "path_step dir stack beyond i s"
    show ?thesis
    proof (cases "w_last ?s")
      case True
      with \<open>i \<le> num_paths stack\<close> show ?thesis
        by (subst path_loop.simps) (simp add: Let_def)
    next
      case False
      from "1.IH" [OF \<open>i \<le> num_paths stack\<close> refl False] False \<open>i \<le> num_paths stack\<close>
      show ?thesis by (subst path_loop.simps) (simp add: Let_def)
    qed
  qed
qed

lemma path_step_push_at_max:
  assumes "is_push (path_at stack beyond i)"
    and "NF_FLOW_TABLE_ENCAP_MAX \<le> unat (in_num_encaps (w_route s (\<not> dir)))"
  shows "w_last (path_step dir stack beyond i s) \<and>
         w_route (path_step dir stack beyond i s) (\<not> dir) = w_route s (\<not> dir)"
proof -
  from assms(2) have g: "int NF_FLOW_TABLE_ENCAP_MAX \<le> uint (in_num_encaps (w_route s (\<not> dir)))"
    by (simp only: uint_nat of_nat_le_iff)
  from assms(1) consider
      "path_type (path_at stack beyond i) = DEV_PATH_PPPOE \<or>
       path_type (path_at stack beyond i) = DEV_PATH_VLAN"
    | "path_type (path_at stack beyond i) = DEV_PATH_BRIDGE"
      "bridge_vlan_mode (path_at stack beyond i) = DEV_PATH_BR_VLAN_TAG"
    unfolding is_push_def by blast
  then show ?thesis
  proof cases
    case 1
    with g show ?thesis by (simp add: path_step_def Let_def)
  next
    case 2
    with g show ?thesis by (simp add: path_step_def Let_def)
  qed
qed

text \<open>
  C5, amended: for every forwarding-path stack whose walk does not decrement the
  encapsulation count while it is 0, the count of the opposite direction's ingress
  tuple is at most \<open>NF_FLOW_TABLE_ENCAP_MAX\<close> after every iteration, given that
  it is so at the start; a segment that would add a layer (VLAN, PPPoE, bridge with
  tag) while the count has reached the maximum ends the walk and leaves that tuple
  as it is; and the walk makes at most \<open>num_paths + 1\<close> iterations.
\<close>

theorem encaps_bounded:
  assumes "unat (in_num_encaps (route (\<not> dir))) \<le> NF_FLOW_TABLE_ENCAP_MAX"
  shows "(\<forall>s \<in> set (path_loop dir stack beyond 0 (walk_start route dev)).
            \<not> popped_empty s \<longrightarrow>
            unat (in_num_encaps (w_route s (\<not> dir))) \<le> NF_FLOW_TABLE_ENCAP_MAX) \<and>
         (\<forall>i s. is_push (path_at stack beyond i) \<and>
                 NF_FLOW_TABLE_ENCAP_MAX \<le> unat (in_num_encaps (w_route s (\<not> dir))) \<longrightarrow>
                 w_last (path_step dir stack beyond i s) \<and>
                 w_route (path_step dir stack beyond i s) (\<not> dir) = w_route s (\<not> dir)) \<and>
         length (path_loop dir stack beyond 0 (walk_start route dev)) \<le> nat (num_paths stack + 1)"
proof -
  have "encaps_ok dir (walk_start route dev)"
    using assms by (simp add: encaps_ok_def walk_start_def)
  from path_loop_encaps_ok [OF this, of stack beyond 0]
  have "\<forall>s \<in> set (path_loop dir stack beyond 0 (walk_start route dev)).
            \<not> popped_empty s \<longrightarrow>
            unat (in_num_encaps (w_route s (\<not> dir))) \<le> NF_FLOW_TABLE_ENCAP_MAX"
    by (auto simp: encaps_ok_def)
  moreover have "length (path_loop dir stack beyond 0 (walk_start route dev))
                   \<le> nat (num_paths stack + 1)"
    using path_loop_length [of dir stack beyond 0] by simp
  ultimately show ?thesis using path_step_push_at_max by blast
qed

theorem encaps_bounded_witness:
  "unat (in_num_encaps (w_route
     (last (path_loop False ex_vlan_stack ex_path 0 (walk_start zero_route ex_dev_wan))) True))
     \<le> NF_FLOW_TABLE_ENCAP_MAX \<and>
   length (path_loop False ex_vlan_stack ex_path 0 (walk_start zero_route ex_dev_wan)) \<le> 5"
proof -
  let ?l = "path_loop False ex_vlan_stack ex_path 0 (walk_start zero_route ex_dev_wan)"
  have a: "?l \<noteq> []" by code_simp
  have b: "\<not> popped_empty (last ?l)" by code_simp
  have c: "unat (in_num_encaps (zero_route (\<not> False))) \<le> NF_FLOW_TABLE_ENCAP_MAX"
    by (simp add: zero_route_def zero_tuple_def)
  have d: "nat (num_paths ex_vlan_stack + 1) = 5" by (simp add: ex_vlan_stack_def)
  from encaps_bounded [where route = zero_route and dir = False and stack = ex_vlan_stack
      and beyond = ex_path and dev = ex_dev_wan] a b c d
  show ?thesis using last_in_set [OF a] by auto
qed

text \<open>
  C5 as stated fails for a stack that begins with a bridge segment whose mode is
  \<open>DEV_PATH_BR_VLAN_UNTAG\<close>: the count is decremented at 0, the two-bit field
  wraps, and the walk ends with a count of 3 while the maximum is 2.
\<close>

theorem encaps_unmatched_pop_counterexample:
  "unat (in_num_encaps (w_route
     (path_walk False ex_untag_stack ex_path zero_route ex_dev_wan) True)) = 3 \<and>
   NF_FLOW_TABLE_ENCAP_MAX = 2"
  by code_simp

text \<open>
  The walk stays inside the path array when \<open>num_paths\<close> is less than the
  capacity of the array, and the iteration for \<open>i = num_paths\<close> adds no
  encapsulation entry and is the last one.
\<close>

lemma path_loop_in_array:
  "num_paths stack < int (length (path stack)) \<Longrightarrow> 0 \<le> i \<Longrightarrow> \<not> read_outside s \<Longrightarrow>
   \<forall>s' \<in> set (path_loop dir stack beyond i s). \<not> read_outside s'"
proof (induction dir stack beyond i s rule: path_loop.induct)
  case (1 dir stack beyond i s)
  show ?case
  proof (cases "i \<le> num_paths stack")
    case False
    then show ?thesis by (subst path_loop.simps) simp
  next
    case True
    let ?s = "path_step dir stack beyond i s"
    have ok: "\<not> read_outside ?s"
      using "1.prems" True by (simp add: read_outside_step in_array_def)
    show ?thesis
    proof (cases "w_last ?s")
      case True
      with \<open>i \<le> num_paths stack\<close> ok show ?thesis
        by (subst path_loop.simps) (simp add: Let_def)
    next
      case False
      from "1.prems" have "0 \<le> i + 1" by simp
      from "1.IH" [OF \<open>i \<le> num_paths stack\<close> refl False "1.prems"(1) this ok]
        False \<open>i \<le> num_paths stack\<close> ok
      show ?thesis by (subst path_loop.simps) (simp add: Let_def)
    qed
  qed
qed











section \<open>Properties of the destination references\<close>


lemma acquired_append [simp]: "acquired (xs @ ys) = acquired xs @ acquired ys"
  by (simp add: acquired_def)

lemma released_append [simp]: "released (xs @ ys) = released xs @ released ys"
  by (simp add: released_def)

lemma acquired_Cons [simp]:
  "acquired [] = []"
  "acquired (ev # es) = (case ev of DstAcquire d \<Rightarrow> [d] | _ \<Rightarrow> []) @ acquired es"
  by (simp_all add: acquired_def)

lemma released_Cons [simp]:
  "released [] = []"
  "released (ev # es) = (case ev of DstRelease d \<Rightarrow> [d] | _ \<Rightarrow> []) @ released es"
  by (simp_all add: released_def)

lemma dst_events_check_device [simp]:
  "acquired (trace (xt_flowoffload_check_device k tbl d w)) = acquired (trace w)"
  "released (trace (xt_flowoffload_check_device k tbl d w)) = released (trace w)"
  by (simp_all add: xt_flowoffload_check_device_def xt_flowoffload_create_hook_def Let_def
      split: option.splits)

lemma trace_misc [simp]:
  "trace (clear_offload_bit w) = trace w" "trace (set_status st w) = trace w"
  "trace (be_liberal w) = trace w" "trace (bind_net tbl n w) = trace w"
  "trace (flow_offload_add tbl f w) = trace w @ [FlowOffloadAdd tbl]"
  by (simp_all add: clear_offload_bit_def set_status_def be_liberal_def flow_offload_add_def
      bind_net_def split: option.splits)

lemma trace_dst_release:
  "trace (dst_release dp w) =
     trace w @ (case dp of None \<Rightarrow> [] | Some d \<Rightarrow> [DstRelease (dst_id d)])"
  by (simp add: dst_release_def split: option.splits)

lemma path_step_dst: "dst (w_route (path_step dir stack beyond i s) d) = dst (w_route s d)"
  by (cases "d = dir")
     (simp_all add: path_step_def Let_def add_encap_def split: bridge_vlan_mode.splits)

lemma path_loop_dst:
  "\<forall>s' \<in> set (path_loop dir stack beyond i s). dst (w_route s' d) = dst (w_route s d)"
proof (induction dir stack beyond i s rule: path_loop.induct)
  case (1 dir stack beyond i s)
  show ?case
  proof (cases "i \<le> num_paths stack")
    case False
    then show ?thesis by (subst path_loop.simps) simp
  next
    case True
    let ?s = "path_step dir stack beyond i s"
    show ?thesis
    proof (cases "w_last ?s")
      case True
      with \<open>i \<le> num_paths stack\<close> show ?thesis
        by (subst path_loop.simps) (simp add: Let_def path_step_dst)
    next
      case False
      from "1.IH" [OF \<open>i \<le> num_paths stack\<close> refl False] False \<open>i \<le> num_paths stack\<close>
      show ?thesis by (subst path_loop.simps) (simp add: Let_def path_step_dst)
    qed
  qed
qed

lemma path_walk_dst: "dst (w_route (path_walk dir stack beyond route dev) d) = dst (route d)"
proof -
  let ?s0 = "walk_start route dev"
  have "last (?s0 # path_loop dir stack beyond 0 ?s0) \<in> set (?s0 # path_loop dir stack beyond 0 ?s0)"
    by (rule last_in_set) simp
  then have "dst (w_route (last (?s0 # path_loop dir stack beyond 0 ?s0)) d) = dst (w_route ?s0 d)"
    using path_loop_dst [of dir stack beyond 0 ?s0 d] by auto
  then show ?thesis by (simp add: path_walk_def walk_start_def)
qed

lemma check_path_dst:
  "dst (fst (xt_flowoffload_route_check_path e ct dir out route devs) d) = dst (route d)"
  by (cases "d = dir")
     (simp_all add: xt_flowoffload_route_check_path_def Let_def path_walk_dst
        split: option.splits prod.splits)

lemma route_dir_ok:
  assumes "xt_flowoffload_route_dir e ct dir par oif route w = (ret, route', w')"
  shows "released (trace w') = released (trace w) \<and>
         (ret = 0 \<longrightarrow> (\<exists>d. dst (route' dir) = Some d \<and> dst (route' (\<not> dir)) = dst (route (\<not> dir)) \<and>
                        acquired (trace w') = acquired (trace w) @ [dst_id d])) \<and>
         (ret \<noteq> 0 \<longrightarrow> ret < 0 \<and> acquired (trace w') = acquired (trace w))"
  using assms
  by (auto simp: xt_flowoffload_route_dir_def Let_def ENOENT_def split: option.splits)

lemma route_ok:
  assumes "xt_flowoffload_route e ct par dir route devs w = (ret, route', devs', w')"
  shows "released (trace w') = released (trace w) \<and>
         (ret = 0 \<longrightarrow> (\<exists>d1 d2. dst (route' dir) = Some d1 \<and> dst (route' (\<not> dir)) = Some d2 \<and>
                        acquired (trace w') = acquired (trace w) @ [dst_id d1, dst_id d2])) \<and>
         (ret \<noteq> 0 \<longrightarrow> ret < 0 \<and>
            (acquired (trace w') = acquired (trace w) \<or>
             (\<exists>d. acquired (trace w') = acquired (trace w) @ [d])))"
proof -
  obtain r1 route1 w1 where
    a: "xt_flowoffload_route_dir e ct dir par (ifindex (devs dir)) route w = (r1, route1, w1)"
    by (cases "xt_flowoffload_route_dir e ct dir par (ifindex (devs dir)) route w")
  note A = route_dir_ok [OF a]
  show ?thesis
  proof (cases "r1 = 0")
    case False
    with a assms have "ret = r1" "w' = w1" by (simp_all add: xt_flowoffload_route_def)
    with A False show ?thesis by simp
  next
    case True
    obtain r2 route2 w2 where
      b: "xt_flowoffload_route_dir e ct (\<not> dir) par (ifindex (devs (\<not> dir))) route1 w1 =
            (r2, route2, w2)"
      by (cases "xt_flowoffload_route_dir e ct (\<not> dir) par (ifindex (devs (\<not> dir))) route1 w1")
    note B = route_dir_ok [OF b]
    show ?thesis
    proof (cases "r2 = 0")
      case False
      with a b True assms have "ret = r2" "w' = w2" by (simp_all add: xt_flowoffload_route_def)
      with A B True False show ?thesis by auto
    next
      case r2: True
      obtain route3 devs3 where
        c: "xt_flowoffload_route_check_path e ct dir (\<not> dir) route2 devs = (route3, devs3)"
        by (cases "xt_flowoffload_route_check_path e ct dir (\<not> dir) route2 devs")
      obtain route4 devs4 where
        d: "xt_flowoffload_route_check_path e ct (\<not> dir) dir route3 devs3 = (route4, devs4)"
        by (cases "xt_flowoffload_route_check_path e ct (\<not> dir) dir route3 devs3")
      from a b c d True r2 assms have res: "ret = 0" "route' = route4" "w' = w2"
        by (simp_all add: xt_flowoffload_route_def)
      have "dst (route4 x) = dst (route2 x)" for x
        using check_path_dst [of e ct "\<not> dir" dir route3 devs3 x]
          check_path_dst [of e ct dir "\<not> dir" route2 devs x] c d by simp
      with A B True r2 res show ?thesis by auto
    qed
  qed
qed

lemma tg_offload_dst:
  assumes "tg_offload e par ct tcph devs w = (v, w')"
  shows "\<exists>A R. acquired (trace w') = acquired (trace w) @ A \<and>
               released (trace w') = released (trace w) @ R \<and>
               (R = A \<or> R = [] \<and> (\<exists>d. A = [d]))"
proof (cases "bit (status ct) IPS_OFFLOAD_BIT")
  case True
  with assms show ?thesis by (simp add: tg_offload_def)
next
  case False
  let ?ct1 = "ct\<lparr>status := set_bit IPS_OFFLOAD_BIT (status ct)\<rparr>"
  let ?w1 = "set_status (status ?ct1) w"
  let ?dir = "IP_CT_IS_REPLY \<le> ctinfo (skb w)"
  obtain ret route devs1 w2 where
    r: "xt_flowoffload_route e ?ct1 par ?dir zero_route devs ?w1 = (ret, route, devs1, w2)"
    by (cases "xt_flowoffload_route e ?ct1 par ?dir zero_route devs ?w1")
  note R = route_ok [OF r]
  show ?thesis
  proof (cases "ret < 0")
    case True
    with assms False r have "w' = clear_offload_bit w2"
      by (simp add: tg_offload_def Let_def err_flow_route_def)
    with R True show ?thesis by auto
  next
    case nf: False
    with R have z: "ret = 0" by auto
    with R obtain d1 d2 where
      d: "dst (route ?dir) = Some d1" "dst (route (\<not> ?dir)) = Some d2"
         "acquired (trace w2) = acquired (trace w) @ [dst_id d1, dst_id d2]"
         "released (trace w2) = released (trace w)"
      by auto
    from assms False r z d show ?thesis
      by (auto simp: tg_offload_def Let_def err_flow_route_def err_flow_alloc_def
          err_flow_add_def trace_dst_release split: if_splits)
  qed
qed

text \<open>
  What a run of \<open>flowoffload_tg\<close> acquires and releases: either the releases
  are the acquisitions, in the same order, or one destination is acquired and none
  is released. No destination is released twice or without having been acquired.
\<close>

lemma flowoffload_tg_dst:
  assumes "flowoffload_tg e par w = (v, w')"
  shows "\<exists>A R. acquired (trace w') = acquired (trace w) @ A \<and>
               released (trace w') = released (trace w) @ R \<and>
               (R = A \<or> R = [] \<and> (\<exists>d. A = [d]))"
proof -
  have "w' = w \<or> (\<exists>ct tcph devs. tg_offload e par ct tcph devs w = (v, w'))"
    using assms
    by (auto simp: flowoffload_tg_def tg_checks_def Let_def split: option.splits if_splits)
  then show ?thesis
  proof
    assume "w' = w"
    then show ?thesis by simp
  next
    assume "\<exists>ct tcph devs. tg_offload e par ct tcph devs w = (v, w')"
    then show ?thesis using tg_offload_dst by blast
  qed
qed

text \<open>
  C1: the claim asks that each destination acquired during route resolution is
  released exactly once on every path. On the path where the first routing lookup
  succeeds and the second fails, \<open>xt_flowoffload_route\<close> returns without releasing
  the first destination and \<open>flowoffload_tg\<close> jumps past both \<open>dst_release\<close>
  calls: the run below acquires destination 7 and never releases it. The offload
  bit is cleared again, the state is otherwise as before. This is the second case
  of the lemma above.
\<close>

theorem tg_second_route_failure_leaks:
  "flowoffload_tg ex_env_second_route_fails ex_par (ex_world 17) =
     (XT_CONTINUE, (ex_world 17)\<lparr>trace := [DstAcquire 7]\<rparr>)"
  by (simp add: flowoffload_tg_def tg_checks_def tg_offload_def xt_flowoffload_route_def
      xt_flowoffload_route_dir_def err_flow_route_def clear_offload_bit_def set_status_def
      xt_flowoffload_skip_def emit_def Let_def
      ex_env_second_route_fails_def ex_par_def ex_world_def ex_conn_def ex_skb_def ex_dst_def
      ex_dev_lan_def ex_dev_wan_def
      IPPROTO_TCP_def IPPROTO_UDP_def NFPROTO_IPV4_def IPS_SEQ_ADJUST_def IPS_CONFIRMED_BIT_def
      IPS_OFFLOAD_BIT_def IP_CT_IS_REPLY_def ENOENT_def u3_ip_def zero_route_def)

end
